theory Spec2Isabelle
  imports Complex_Main
begin

section \<open>JavaScript values\<close>

text \<open>
  The application is TypeScript; at run time its data are JavaScript values.  Profiles and
  eligibility results are plain objects built with object spread from whatever
  \<open>JSON.parse\<close> returned, so they are modelled dynamically: a value is \<open>undefined\<close>
  or a JSON value, and a state-level object is the finite map of its own properties.
  A number is a double; only its truthiness matters here, so the finite ones are carried
  as rationals.
\<close>

datatype jsnum = NaN | PosInfinity | NegInfinity | Finite rat

datatype jsval =
    JUndefined
  | JNull
  | JBool bool
  | JNum jsnum
  | JStr string
  | JArr "jsval list"
  | JObj "(string \<times> jsval) list"

text \<open>An object of the application state: own property name to value.  A property may
  be present and hold \<open>undefined\<close>, which is not the same as being absent.\<close>

type_synonym obj = "string \<rightharpoonup> jsval"

text \<open>Reading a property, \<open>o.k\<close>: an absent property reads as \<open>undefined\<close>.\<close>

definition get :: "obj \<Rightarrow> string \<Rightarrow> jsval" where
  "get ob k = (case ob k of None \<Rightarrow> JUndefined | Some v \<Rightarrow> v)"

text \<open>ToBoolean, as used by \<open>!x\<close>, \<open>x || y\<close> and \<open>filter\<close>.\<close>

fun truthy :: "jsval \<Rightarrow> bool" where
  "truthy JUndefined = False"
| "truthy JNull = False"
| "truthy (JBool b) = b"
| "truthy (JNum n) = (n \<noteq> NaN \<and> n \<noteq> Finite 0)"
| "truthy (JStr s) = (s \<noteq> [])"
| "truthy (JArr _) = True"
| "truthy (JObj _) = True"

text \<open>Decimal digits of a natural number, for array-index property names and for
  number formatting.\<close>

definition digit :: "nat \<Rightarrow> char" where
  "digit d = ''0123456789'' ! (d mod 10)"

fun decimal :: "nat \<Rightarrow> string" where
  "decimal n = (if n < 10 then [digit n] else decimal (n div 10) @ [digit (n mod 10)])"

declare decimal.simps [simp del]

text \<open>
  Object spread \<open>{...v}\<close> copies the own enumerable properties of \<open>v\<close>: the
  properties of an object, the indexed elements of an array, the indexed characters of a
  string, and nothing for \<open>undefined\<close>, \<open>null\<close>, booleans and numbers.  In a parsed
  object a later entry for the same key wins, as in \<open>JSON.parse\<close>.
\<close>

fun spread :: "jsval \<Rightarrow> obj" where
  "spread (JObj kvs) = map_of (rev kvs)"
| "spread (JArr xs) = map_of (zip (map decimal [0..<length xs]) xs)"
| "spread (JStr s) = map_of (zip (map decimal [0..<length s]) (map (\<lambda>c. JStr [c]) s))"
| "spread _ = Map.empty"

section \<open>Application state (App)\<close>

datatype tab = Input | Results | Dashboard

record DashboardMetrics =
  schemesAnalyzed :: nat
  checksPerformed :: nat
  avgResponseTime :: string
  eligibleCount :: nat

record user =
  user_name :: string
  user_email :: string

record app_state =
  isAuthenticated :: bool
  user :: "user option"
  profile :: obj
  results :: "obj list"
  isLoading :: bool
  activeTab :: tab
  metrics :: DashboardMetrics

text \<open>
  \<open>handleProfileExtracted\<close> and \<open>handleManualChange\<close> are the same update,
  \<open>setProfile(prev => ({ ...prev, ...extracted }))\<close>: the own properties of the argument
  are laid over the previous profile.
\<close>

definition handleProfileExtracted :: "jsval \<Rightarrow> app_state \<Rightarrow> app_state" where
  "handleProfileExtracted extracted s = s\<lparr>profile := profile s ++ spread extracted\<rparr>"

definition handleManualChange :: "jsval \<Rightarrow> app_state \<Rightarrow> app_state" where
  "handleManualChange updates s = s\<lparr>profile := profile s ++ spread updates\<rparr>"

definition handleLogin :: "user \<Rightarrow> app_state \<Rightarrow> app_state" where
  "handleLogin userData s = s\<lparr>user := Some userData, isAuthenticated := True\<rparr>"

definition handleLogout :: "app_state \<Rightarrow> app_state" where
  "handleLogout s =
     s\<lparr>isAuthenticated := False, user := None, results := [],
       profile := [''category'' \<mapsto> JStr ''General'', ''landHolding'' \<mapsto> JNum (Finite 0)],
       activeTab := Input\<rparr>"

text \<open>The initial state of \<open>App\<close>, for a catalog of the given size.\<close>

definition initial_state :: "nat \<Rightarrow> app_state" where
  "initial_state k =
     \<lparr>isAuthenticated = False,
      user = None,
      profile = [''category'' \<mapsto> JStr ''General'', ''landHolding'' \<mapsto> JNum (Finite 0)],
      results = [],
      isLoading = False,
      activeTab = Input,
      metrics = \<lparr>schemesAnalyzed = k, checksPerformed = 0,
                 avgResponseTime = ''0.0s'', eligibleCount = 0\<rparr>\<rparr>"

section \<open>The inference service (geminiService)\<close>

text \<open>
  A call of \<open>ai.models.generateContent\<close> either rejects or resolves to a response whose
  \<open>text\<close> is a string or \<open>undefined\<close>.  The service is outside the repository: it is
  a parameter, a function of the prompt it is sent.  What a function of this module can
  throw is a rejection of the remote call, the \<open>SyntaxError\<close> of \<open>JSON.parse\<close>, or
  the \<open>TypeError\<close> of a template literal whose value has no string conversion.
\<close>

datatype exn = ServiceError string | SyntaxError | TypeError

type_synonym service = "string \<Rightarrow> exn + string option"

record scheme =
  scheme_id :: string
  scheme_name :: string
  scheme_category :: string
  scheme_benefit :: string

text \<open>
  What the module takes from outside: the two constants of \<open>constants.ts\<close>
  (\<open>INITIAL_SCHEMES\<close>, the catalog, and \<open>SCHEME_GUIDELINES\<close>, an object literal
  given by its own entries), and two built-ins of the language: \<open>JSON.parse\<close>
  (\<open>None\<close> when it throws) and the string conversion of a template literal, which
  gives the text of every value that has one (see \<open>convertible\<close> below).
\<close>

record env =
  INITIAL_SCHEMES :: "scheme list"
  SCHEME_GUIDELINES :: "string \<rightharpoonup> string"
  JSON_parse :: "string \<Rightarrow> jsval option"
  ToString :: "jsval \<Rightarrow> string"

text \<open>\<open>JSON.parse(response.text)\<close>: an absent text is converted to the string
  \<open>undefined\<close>, which is not JSON, so the call throws.\<close>

definition parse_text :: "env \<Rightarrow> string option \<Rightarrow> jsval option" where
  "parse_text E text = (case text of None \<Rightarrow> None | Some t \<Rightarrow> JSON_parse E t)"

text \<open>\<open>String.prototype.toUpperCase\<close> on ASCII identifiers.\<close>

definition toUpperCase :: "string \<Rightarrow> string" where
  "toUpperCase =
     map (\<lambda>c. case map_of (zip ''abcdefghijklmnopqrstuvwxyz'' ''ABCDEFGHIJKLMNOPQRSTUVWXYZ'') c of
                None \<Rightarrow> c | Some u \<Rightarrow> u)"

subsection \<open>extractProfileFromText\<close>

definition extractionPrompt :: "string \<Rightarrow> string" where
  \<open>extractionPrompt text =
     ''Extract a structured farmer profile from this text: "'' @ text @ ''". \<newline>'' @
     ''    Return as JSON with: name, state, district, landHolding (number in acres), '' @
     ''cropType, category (General/OBC/SC/ST/EWS).''\<close>

text \<open>The remote call is awaited outside the \<open>try\<close>; only \<open>JSON.parse\<close> is inside
  it, and its failure yields the empty object.\<close>

definition extractProfileFromText :: "env \<Rightarrow> service \<Rightarrow> string \<Rightarrow> exn + jsval" where
  "extractProfileFromText E svc text =
     (case svc (extractionPrompt text) of
        Inl e \<Rightarrow> Inl e
      | Inr response_text \<Rightarrow>
          (case parse_text E response_text of
             Some v \<Rightarrow> Inr v
           | None \<Rightarrow> Inr (JObj [])))"

subsection \<open>checkEligibility\<close>

text \<open>
  \<open>SCHEME_GUIDELINES[schemeId]\<close> is a property read on an object literal: it yields the
  object's own entry when there is one, and otherwise what the object inherits from
  \<open>Object.prototype\<close> under that name, or \<open>undefined\<close>.  The inherited members are
  functions, and \<open>__proto__\<close> reads as the prototype object itself.
\<close>

definition Object_prototype_members :: "string list" where
  "Object_prototype_members =
     [''constructor'', ''__defineGetter__'', ''__defineSetter__'', ''hasOwnProperty'',
      ''__lookupGetter__'', ''__lookupSetter__'', ''isPrototypeOf'', ''propertyIsEnumerable'',
      ''toString'', ''valueOf'', ''__proto__'', ''toLocaleString'']"

text \<open>The text of an inherited member in a template literal, as the common engines print
  a built-in function; the prototype object prints as any plain object.\<close>

definition inherited_text :: "string \<Rightarrow> string" where
  "inherited_text m =
     (if m = ''__proto__'' then ''[object Object]''
      else ''function '' @ (if m = ''constructor'' then ''Object'' else m)
           @ ''() { [native code] }'')"

text \<open>\<open>SCHEME_GUIDELINES[schemeId] || "No guidelines found."\<close>: the placeholder stands
  in for \<open>undefined\<close> and for an empty entry; an inherited member is truthy and is
  taken as it is.\<close>

definition guidelines_for :: "env \<Rightarrow> string \<Rightarrow> string" where
  "guidelines_for E schemeId =
     (case SCHEME_GUIDELINES E schemeId of
        Some g \<Rightarrow> if g = [] then ''No guidelines found.'' else g
      | None \<Rightarrow>
          if schemeId \<in> set Object_prototype_members then inherited_text schemeId
          else ''No guidelines found.'')"

text \<open>
  A template literal converts each value to a string.  Primitive values always convert.
  A plain object converts through the \<open>toString\<close> it inherits, unless it has an own
  property of that name: parsed data is never callable, so the conversion then finds no
  method that returns a primitive and throws a \<open>TypeError\<close>.  An array converts by
  joining the conversions of its elements.
\<close>

fun convertible :: "jsval \<Rightarrow> bool" and all_convertible :: "jsval list \<Rightarrow> bool" where
  "convertible (JObj kvs) = (map_of kvs ''toString'' = None)"
| "convertible (JArr xs) = all_convertible xs"
| "convertible JUndefined = True"
| "convertible JNull = True"
| "convertible (JBool b) = True"
| "convertible (JNum n) = True"
| "convertible (JStr s) = True"
| "all_convertible [] = True"
| "all_convertible (x # xs) = (convertible x \<and> all_convertible xs)"

text \<open>The five profile fields that the prompt of \<open>checkEligibility\<close> interpolates.\<close>

definition fields_convertible :: "obj \<Rightarrow> bool" where
  "fields_convertible p =
     (convertible (get p ''name'') \<and> convertible (get p ''state'')
      \<and> convertible (get p ''landHolding'') \<and> convertible (get p ''category'')
      \<and> convertible (get p ''cropType''))"

text \<open>The template of the prompt: the part before the guidelines, with the profile
  fields, and the part after them.\<close>

definition prompt_head :: "env \<Rightarrow> obj \<Rightarrow> string" where
  \<open>prompt_head E p =
     ''\<newline>    Analyze if the following farmer profile is eligible for the scheme '' @
     ''based on the guidelines provided.\<newline>    \<newline>'' @
     ''    FARMER PROFILE:\<newline>'' @
     ''    Name: '' @ ToString E (get p ''name'') @ ''\<newline>'' @
     ''    State: '' @ ToString E (get p ''state'') @ ''\<newline>'' @
     ''    Land Holding: '' @ ToString E (get p ''landHolding'') @ '' acres\<newline>'' @
     ''    Category: '' @ ToString E (get p ''category'') @ ''\<newline>'' @
     ''    Crop: '' @ ToString E (get p ''cropType'') @ ''\<newline>\<newline>'' @
     ''    SCHEME GUIDELINES:\<newline>'' @
     ''    ''\<close>

definition prompt_tail :: string where
  \<open>prompt_tail =
     ''\<newline>\<newline>'' @
     ''    Return a JSON response with:\<newline>'' @
     ''    - isEligible (boolean)\<newline>'' @
     ''    - benefit (string describing what they get)\<newline>'' @
     ''    - proofCitation (e.g. "Page 2, Section 4")\<newline>'' @
     ''    - proofSnippet (Direct quote from the guidelines justifying the decision)\<newline>'' @
     ''    - nextSteps (array of strings)\<newline>'' @
     ''    - requiredDocuments (array of strings)\<newline>  ''\<close>

definition promptText :: "env \<Rightarrow> obj \<Rightarrow> string \<Rightarrow> string" where
  "promptText E p guidelines = prompt_head E p @ guidelines @ prompt_tail"

text \<open>The prompt that \<open>checkEligibility\<close> sends for a profile and a scheme id.\<close>

definition eligibilityPrompt :: "env \<Rightarrow> obj \<Rightarrow> string \<Rightarrow> string" where
  "eligibilityPrompt E p schemeId = promptText E p (guidelines_for E schemeId)"

text \<open>
  The lookup comes first and cannot throw; the template literal throws when a profile
  field has no string conversion, before any request is made.  No \<open>try\<close> here: that
  error, a rejected call and a \<open>SyntaxError\<close> all leave the function.  The result is
  \<open>{ ...data, schemeId, schemeName: schemeId.toUpperCase() }\<close>.
\<close>

definition checkEligibility :: "env \<Rightarrow> service \<Rightarrow> obj \<Rightarrow> string \<Rightarrow> exn + obj" where
  "checkEligibility E svc p schemeId =
     (if \<not> fields_convertible p then Inl TypeError
      else
        case svc (eligibilityPrompt E p schemeId) of
          Inl e \<Rightarrow> Inl e
        | Inr response_text \<Rightarrow>
            (case parse_text E response_text of
               None \<Rightarrow> Inl SyntaxError
             | Some data \<Rightarrow>
                 Inr ((spread data)(''schemeId'' \<mapsto> JStr schemeId,
                                    ''schemeName'' \<mapsto> JStr (toUpperCase schemeId)))))"

section \<open>The analysis run (App.runAnalysis)\<close>

subsection \<open>The duration string\<close>

text \<open>
  \<open>((Date.now() - startTime) / 1000).toFixed(1)\<close>.  The two clock readings are integers
  of milliseconds below \<open>2^53\<close>, so their difference is exact; the division rounds the
  quotient to the nearest double, ties to even, and \<open>toFixed(1)\<close> then takes the integer
  \<open>n\<close> for which \<open>n / 10\<close> is nearest to that double, the larger one on a tie.
  \<open>to_double\<close> is the rounding for a magnitude below \<open>2^53\<close>: the value is scaled by
  a power of two into the 53-bit integers, rounded there, and scaled back.
\<close>

definition round_half_even :: "rat \<Rightarrow> int" where
  "round_half_even r =
     (let f = \<lfloor>r\<rfloor>; d = r - of_int f
      in if d < 1/2 then f else if 1/2 < d then f + 1 else if even f then f else f + 1)"

definition binade_shift :: "rat \<Rightarrow> nat" where
  "binade_shift q = length (takeWhile (\<lambda>j. q * 2 ^ j < 2 ^ 52) [0..<1075])"

definition to_double :: "rat \<Rightarrow> rat" where
  "to_double q =
     (if q = 0 then 0
      else let a = \<bar>q\<bar>; j = binade_shift a; m = of_int (round_half_even (a * 2 ^ j)) / 2 ^ j
           in if q < 0 then - m else m)"

definition toFixed1 :: "rat \<Rightarrow> string" where
  "toFixed1 x =
     (let a = \<bar>x\<bar>; n = nat \<lfloor>a * 10 + 1/2\<rfloor>
      in (if x < 0 then ''-'' else []) @ decimal (n div 10) @ ''.'' @ [digit (n mod 10)])"

definition duration :: "int \<Rightarrow> int \<Rightarrow> string" where
  "duration startTime endTime = toFixed1 (to_double (of_int (endTime - startTime) / 1000))"

subsection \<open>Promise.all\<close>

text \<open>
  \<open>Promise.all\<close> over promises that are all in flight.  Each promise has its outcome;
  \<open>order\<close> is the order in which they settle, by index.  A fulfilment is stored in
  the slot of its own index; the first rejection to arrive rejects the whole; when every
  slot is filled the whole fulfils with the slots in index order.  If the promises never
  all settle, neither does the whole.
\<close>

datatype 'a settled = Pending | Rejected exn | Fulfilled 'a

fun all_settle :: "(exn + 'a) list \<Rightarrow> 'a option list \<Rightarrow> nat list \<Rightarrow> 'a list settled" where
  "all_settle ps slots [] =
     (if list_all (\<lambda>x. x \<noteq> None) slots then Fulfilled (map the slots) else Pending)"
| "all_settle ps slots (i # order) =
     (if i < length ps
      then (case ps ! i of
              Inl e \<Rightarrow> Rejected e
            | Inr v \<Rightarrow> all_settle ps (slots[i := Some v]) order)
      else all_settle ps slots order)"

definition Promise_all :: "(exn + 'a) list \<Rightarrow> nat list \<Rightarrow> 'a list settled" where
  "Promise_all ps order = all_settle ps (replicate (length ps) None) order"

subsection \<open>runAnalysis\<close>

text \<open>
  What a run leaves behind: the application state, the evaluator calls it made, each
  recorded by the prompt it has for the service (in the order made), and how it ended: with the validation alert and an early
  return, in the \<open>catch\<close> branch, after completing, or never (the join still pending,
  the loading flag still set).
\<close>

datatype outcome = Alerted string | Caught exn | Completed | Unsettled

record run =
  final :: app_state
  calls :: "string list"
  outcome :: outcome

text \<open>
  \<open>svc i\<close> is how the service answers the request for the \<open>i\<close>-th catalog entry,
  \<open>order\<close> the order in which the answers arrive, \<open>startTime\<close> and \<open>endTime\<close>
  the two readings of \<open>Date.now()\<close>.  Every \<open>checkEligibility\<close> call is made, and
  sends its request unless its template literal throws, while the \<open>map\<close> runs, before
  anything is awaited.
\<close>

definition runAnalysis ::
  "env \<Rightarrow> (nat \<Rightarrow> service) \<Rightarrow> nat list \<Rightarrow> int \<Rightarrow> int \<Rightarrow> app_state \<Rightarrow> run" where
  "runAnalysis E svc order startTime endTime s =
     (if \<not> truthy (get (profile s) ''name'') \<or> \<not> truthy (get (profile s) ''state'')
      then \<lparr>final = s, calls = [],
            outcome = Alerted ''Please fill in at least Name and State.''\<rparr>
      else
        let s1 = s\<lparr>isLoading := True\<rparr>;
            eligibilityChecks =
              map (\<lambda>(i, sch). checkEligibility E (svc i) (profile s) (scheme_id sch))
                  (enumerate 0 (INITIAL_SCHEMES E));
            sent = map (\<lambda>sch. eligibilityPrompt E (profile s) (scheme_id sch))
                       (INITIAL_SCHEMES E)
        in case Promise_all eligibilityChecks order of
             Pending \<Rightarrow> \<lparr>final = s1, calls = sent, outcome = Unsettled\<rparr>
           | Rejected e \<Rightarrow>
               \<lparr>final = s1\<lparr>isLoading := False\<rparr>, calls = sent, outcome = Caught e\<rparr>
           | Fulfilled res \<Rightarrow>
               \<lparr>final = s1\<lparr>results := res,
                            metrics := (metrics s1)
                              \<lparr>checksPerformed := checksPerformed (metrics s1) + 1,
                               avgResponseTime := duration startTime endTime @ ''s'',
                               eligibleCount :=
                                 length (filter (\<lambda>r. truthy (get r ''isEligible'')) res)\<rparr>,
                            activeTab := Results,
                            isLoading := False\<rparr>,
                calls = sent, outcome = Completed\<rparr>)"

section \<open>Speech capture (VoiceControl)\<close>

text \<open>
  The component holds four pieces of state and one recognition object, \<open>null\<close> where
  the browser has none.  The recognition object belongs to the platform; of it the model
  keeps what the Web Speech API defines for the three methods the component calls:
  \<open>start()\<close> on an object that is already started (no \<open>end\<close> event has fired
  since) throws \<open>InvalidStateError\<close> and is ignored; \<open>stop()\<close> ends the capture of
  audio and still returns a result from the audio captured so far; \<open>abort()\<close> stops
  the recognition and returns nothing but the \<open>end\<close> of the session.
\<close>

datatype session = Inactive | Started | Stopping | Aborting

record voice =
  isListening :: bool
  transcript :: string
  isProcessing :: bool
  error :: "string option"
  recognition :: "session option"

definition recognition_start :: "session \<Rightarrow> string + session" where
  "recognition_start r = (if r = Inactive then Inr Started else Inl ''InvalidStateError'')"

definition recognition_stop :: "session \<Rightarrow> session" where
  "recognition_stop r = (if r = Started then Stopping else r)"

definition recognition_abort :: "session \<Rightarrow> session" where
  "recognition_abort r = (if r = Inactive then Inactive else Aborting)"

text \<open>The outcome of \<open>navigator.mediaDevices.getUserMedia\<close>: granted, or rejected with
  an error of the given name.\<close>

datatype permission = Granted | Refused string

text \<open>The \<open>catch\<close> of \<open>startListening\<close>, by \<open>err.name\<close>.\<close>

definition start_error_message :: "string \<Rightarrow> string" where
  "start_error_message name =
     (if name = ''NotAllowedError'' \<or> name = ''PermissionDeniedError''
      then ''Microphone permission denied. Please allow microphone access in your browser settings.''
      else if name = ''NotFoundError'' \<or> name = ''DevicesNotFoundError''
      then ''No microphone found. Please connect a microphone and try again.''
      else ''Could not start microphone. Ensure no other app is using it.'')"

text \<open>\<open>startListening\<close> up to its \<open>await\<close>, and from the \<open>await\<close> on.\<close>

definition startListening_request :: "voice \<Rightarrow> voice" where
  "startListening_request v =
     (let v1 = v\<lparr>error := None, transcript := []\<rparr>
      in case recognition v1 of
           None \<Rightarrow> v1\<lparr>error := Some
             ''Speech recognition is not supported in this browser. Please try Chrome or Edge.''\<rparr>
         | Some _ \<Rightarrow> v1)"

definition startListening_resume :: "permission \<Rightarrow> voice \<Rightarrow> voice" where
  "startListening_resume perm v =
     (case recognition v of
        None \<Rightarrow> v
      | Some r \<Rightarrow>
          (case perm of
             Refused name \<Rightarrow> v\<lparr>error := Some (start_error_message name)\<rparr>
           | Granted \<Rightarrow>
               (case recognition_start r of
                  Inr r' \<Rightarrow> v\<lparr>isListening := True, recognition := Some r'\<rparr>
                | Inl name \<Rightarrow>
                    v\<lparr>isListening := True, error := Some (start_error_message name)\<rparr>)))"

definition startListening :: "permission \<Rightarrow> voice \<Rightarrow> voice" where
  "startListening perm v = startListening_resume perm (startListening_request v)"

definition stopListening :: "voice \<Rightarrow> voice" where
  "stopListening v =
     (case recognition v of
        None \<Rightarrow> v
      | Some r \<Rightarrow> v\<lparr>recognition := Some (recognition_stop r), isListening := False\<rparr>)"

text \<open>The effect's cleanup.\<close>

definition cleanup :: "voice \<Rightarrow> voice" where
  "cleanup v = v\<lparr>recognition := map_option recognition_abort (recognition v)\<rparr>"

text \<open>The handlers.  \<open>onresult\<close> runs up to its \<open>await\<close> of the extraction, and
  finishes with the extraction's outcome, passing a profile on to \<open>onProfileExtracted\<close>
  when there is one.\<close>

definition onresult :: "string \<Rightarrow> voice \<Rightarrow> voice" where
  "onresult speechToText v =
     v\<lparr>transcript := speechToText, isListening := False, isProcessing := True\<rparr>"

definition onresult_finish :: "exn + jsval \<Rightarrow> voice \<Rightarrow> voice \<times> jsval option" where
  "onresult_finish extraction v =
     (case extraction of
        Inr p \<Rightarrow> (v\<lparr>isProcessing := False\<rparr>, Some p)
      | Inl e \<Rightarrow>
          (v\<lparr>error := Some ''Failed to process your request. Please try speaking again.'',
             isProcessing := False\<rparr>, None))"

definition recognition_error_message :: "string \<Rightarrow> string" where
  "recognition_error_message code =
     (if code = ''audio-capture''
      then ''Microphone capture failed. Ensure your microphone is plugged in and not in use by another app.''
      else if code = ''not-allowed''
      then ''Microphone access blocked. Please enable it in browser settings.''
      else if code = ''no-speech'' then ''No speech detected. Please try again.''
      else if code = ''network'' then ''Network error occurred during speech recognition.''
      else ''Speech recognition error: '' @ code)"

definition onerror :: "string \<Rightarrow> voice \<Rightarrow> voice" where
  "onerror code v = v\<lparr>isListening := False, error := Some (recognition_error_message code)\<rparr>"

definition onend :: "voice \<Rightarrow> voice" where
  "onend v = v\<lparr>isListening := False\<rparr>"

text \<open>
  The events the platform can deliver, by the state of the session: a result while the
  session is started or stopping, an error or the end of any session that is not
  inactive.  The handlers stay registered throughout; \<open>None\<close> means the platform has
  no such event to deliver.
\<close>

datatype event = Result string | Error string | End

definition deliver :: "event \<Rightarrow> voice \<Rightarrow> voice option" where
  "deliver ev v =
     (case recognition v of
        None \<Rightarrow> None
      | Some r \<Rightarrow>
          (case ev of
             Result t \<Rightarrow>
               if r = Started \<or> r = Stopping then Some (onresult t v) else None
           | Error code \<Rightarrow> if r = Inactive then None else Some (onerror code v)
           | End \<Rightarrow>
               if r = Inactive then None
               else Some ((onend v)\<lparr>recognition := Some Inactive\<rparr>)))"

text \<open>The microphone button: disabled while processing, otherwise
  \<open>isListening ? stopListening : startListening\<close>.\<close>

definition onClick :: "permission \<Rightarrow> voice \<Rightarrow> voice" where
  "onClick perm v =
     (if isProcessing v then v
      else if isListening v then stopListening v
      else startListening perm v)"

section \<open>Sample inputs\<close>

text \<open>A catalog of three schemes, a profile, and service behaviours, used to run the
  definitions on concrete inputs.  \<open>sample_parse\<close> agrees with \<open>JSON.parse\<close> on the
  four texts it accepts and on the text it is shown to refuse; \<open>sample_ToString\<close> is
  the string conversion on the primitive values, whole numbers among the finite ones.\<close>

definition sample_catalog :: "scheme list" where
  "sample_catalog =
     [\<lparr>scheme_id = ''pm-kisan'', scheme_name = ''PM Kisan Samman Nidhi'',
       scheme_category = ''Income Support'', scheme_benefit = ''6000 per year''\<rparr>,
      \<lparr>scheme_id = ''pmfby'', scheme_name = ''Pradhan Mantri Fasal Bima Yojana'',
       scheme_category = ''Insurance'', scheme_benefit = ''Crop insurance''\<rparr>,
      \<lparr>scheme_id = ''kcc'', scheme_name = ''Kisan Credit Card'',
       scheme_category = ''Credit'', scheme_benefit = ''Short-term credit''\<rparr>]"

definition sample_parse :: "string \<Rightarrow> jsval option" where
  \<open>sample_parse t =
     (if t = ''{"isEligible":true}'' then Some (JObj [(''isEligible'', JBool True)])
      else if t = ''{"isEligible":false,"schemeName":"Scheme"}''
      then Some (JObj [(''isEligible'', JBool False), (''schemeName'', JStr ''Scheme'')])
      else if t = ''{"age":40}'' then Some (JObj [(''age'', JNum (Finite 40))])
      else if t = ''{"isEligible":"no"}'' then Some (JObj [(''isEligible'', JStr ''no'')])
      else None)\<close>

fun sample_ToString :: "jsval \<Rightarrow> string" where
  "sample_ToString JUndefined = ''undefined''"
| "sample_ToString JNull = ''null''"
| "sample_ToString (JBool b) = (if b then ''true'' else ''false'')"
| "sample_ToString (JNum NaN) = ''NaN''"
| "sample_ToString (JNum PosInfinity) = ''Infinity''"
| "sample_ToString (JNum NegInfinity) = ''-Infinity''"
| "sample_ToString (JNum (Finite r)) = (if r < 0 then ''-'' else []) @ decimal (nat \<lfloor>\<bar>r\<bar>\<rfloor>)"
| "sample_ToString (JStr s) = s"
| "sample_ToString (JArr xs) = []"
| "sample_ToString (JObj kvs) = ''[object Object]''"

definition sample_env :: env where
  "sample_env =
     \<lparr>INITIAL_SCHEMES = sample_catalog,
      SCHEME_GUIDELINES = [''pm-kisan'' \<mapsto> ''Landholding farmer families are eligible.''],
      JSON_parse = sample_parse,
      ToString = sample_ToString\<rparr>"

definition sample_profile :: obj where
  "sample_profile =
     [''name'' \<mapsto> JStr ''Rajesh'', ''state'' \<mapsto> JStr ''Punjab'',
      ''landHolding'' \<mapsto> JNum (Finite 4), ''category'' \<mapsto> JStr ''General'']"

definition sample_state :: app_state where
  "sample_state = (initial_state 3)\<lparr>profile := sample_profile\<rparr>"

text \<open>A service that answers every request, the second one with a verdict of its own
  naming; one whose second call is rejected; one that rejects everything; one that
  replies with a given text.\<close>

definition answering :: "nat \<Rightarrow> service" where
  \<open>answering i prompt =
     (if i = 1 then Inr (Some ''{"isEligible":false,"schemeName":"Scheme"}'')
      else Inr (Some ''{"isEligible":true}''))\<close>

definition failing_second :: "nat \<Rightarrow> service" where
  \<open>failing_second i prompt =
     (if i = 1 then Inl (ServiceError ''503'') else Inr (Some ''{"isEligible":true}''))\<close>

definition unavailable :: service where
  "unavailable prompt = Inl (ServiceError ''503'')"

definition replying :: "string option \<Rightarrow> service" where
  "replying text prompt = Inr text"

text \<open>A service whose verdicts carry the word \<open>no\<close> where a boolean is expected.\<close>

definition mistyped :: "nat \<Rightarrow> service" where
  \<open>mistyped i prompt = Inr (Some ''{"isEligible":"no"}'')\<close>


text \<open>The component while it listens, and at rest after an utterance.\<close>

definition listening :: voice where
  "listening = \<lparr>isListening = True, transcript = [], isProcessing = False,
                 error = None, recognition = Some Started\<rparr>"

definition idle :: voice where
  "idle = \<lparr>isListening = False, transcript = ''hello'', isProcessing = False,
            error = None, recognition = Some Inactive\<rparr>"

section \<open>Profile merge\<close>

lemma spread_self_overlay: "spread v ++ spread v = spread v"
  by (rule ext) (simp add: map_add_def split: option.splits)

text \<open>
  C5 (as the code has it).  Both merge handlers are right-biased: every own property of
  the incoming partial profile replaces the stored one, also when the value it holds is
  \<open>undefined\<close>, and the stored value is kept exactly where the incoming object has no
  own property of that name.  Merging a profile with itself changes nothing.
\<close>

theorem profile_merge_right_biased:
  "profile (handleProfileExtracted P2 s) k
     = (case spread P2 k of Some v \<Rightarrow> Some v | None \<Rightarrow> profile s k)
   \<and> profile (handleManualChange P2 s) k
     = (case spread P2 k of Some v \<Rightarrow> Some v | None \<Rightarrow> profile s k)
   \<and> handleProfileExtracted P1 (s\<lparr>profile := spread P1\<rparr>) = s\<lparr>profile := spread P1\<rparr>
   \<and> handleManualChange P1 (s\<lparr>profile := spread P1\<rparr>) = s\<lparr>profile := spread P1\<rparr>"
proof (intro conjI)
  show "profile (handleProfileExtracted P2 s) k
          = (case spread P2 k of Some v \<Rightarrow> Some v | None \<Rightarrow> profile s k)"
    by (simp add: handleProfileExtracted_def map_add_def)
  show "profile (handleManualChange P2 s) k
          = (case spread P2 k of Some v \<Rightarrow> Some v | None \<Rightarrow> profile s k)"
    by (simp add: handleManualChange_def map_add_def)
  show "handleProfileExtracted P1 (s\<lparr>profile := spread P1\<rparr>) = s\<lparr>profile := spread P1\<rparr>"
    by (simp add: handleProfileExtracted_def spread_self_overlay)
  show "handleManualChange P1 (s\<lparr>profile := spread P1\<rparr>) = s\<lparr>profile := spread P1\<rparr>"
    by (simp add: handleManualChange_def spread_self_overlay)
qed

text \<open>A state field from the voice, laid over a stored name that is kept.\<close>

theorem profile_merge_right_biased_witness:
  "profile (handleProfileExtracted (JObj [(''state'', JStr ''Punjab'')])
      ((initial_state 3)\<lparr>profile := [''name'' \<mapsto> JStr ''Rajesh'']\<rparr>)) ''state''
     = Some (JStr ''Punjab'')
   \<and> profile (handleProfileExtracted (JObj [(''state'', JStr ''Punjab'')])
      ((initial_state 3)\<lparr>profile := [''name'' \<mapsto> JStr ''Rajesh'']\<rparr>)) ''name''
     = Some (JStr ''Rajesh'')"
  using profile_merge_right_biased [of "JObj [(''state'', JStr ''Punjab'')]"
          "(initial_state 3)\<lparr>profile := [''name'' \<mapsto> JStr ''Rajesh'']\<rparr>" "''state''"]
        profile_merge_right_biased [of "JObj [(''state'', JStr ''Punjab'')]"
          "(initial_state 3)\<lparr>profile := [''name'' \<mapsto> JStr ''Rajesh'']\<rparr>" "''name''"]
  by simp

text \<open>
  C5 (as the specification states it) fails: a partial profile may carry a field that is
  present with the value \<open>undefined\<close>.  That field of \<open>P2\<close> is undefined, yet the merge
  writes it over the name already stored.
\<close>

theorem profile_merge_undefined_overwrites:
  "get (spread (JObj [(''name'', JUndefined)])) ''name'' = JUndefined
   \<and> get (profile ((initial_state 3)\<lparr>profile := [''name'' \<mapsto> JStr ''Rajesh'']\<rparr>)) ''name''
       = JStr ''Rajesh''
   \<and> get (profile (handleManualChange (JObj [(''name'', JUndefined)])
         ((initial_state 3)\<lparr>profile := [''name'' \<mapsto> JStr ''Rajesh'']\<rparr>))) ''name''
       = JUndefined"
  by (simp add: get_def handleManualChange_def)

section \<open>Properties of the join\<close>

text \<open>A rejection that arrives rejects the join, with the error of some rejected promise;
  a join that has a rejected promise never fulfils; when every promise fulfils and
  settles, the join fulfils with the values in index order, whatever the order of arrival.\<close>

lemma all_settle_rejects:
  "i \<in> set order \<Longrightarrow> i < length ps \<Longrightarrow> ps ! i = Inl e \<Longrightarrow>
   \<exists>j e'. all_settle ps slots order = Rejected e' \<and> j < length ps \<and> ps ! j = Inl e'"
proof (induction order arbitrary: slots)
  case Nil
  then show ?case by simp
next
  case (Cons k order)
  show ?case
  proof (cases "k < length ps")
    case False
    with Cons.prems have "i \<in> set order" by auto
    from Cons.IH [OF this Cons.prems(2,3)] False show ?thesis by simp
  next
    case True
    show ?thesis
    proof (cases "ps ! k")
      case (Inl e')
      with True show ?thesis by auto
    next
      case (Inr v)
      with Cons.prems have "i \<in> set order" by auto
      from Cons.IH [OF this Cons.prems(2,3)] True Inr show ?thesis by simp
    qed
  qed
qed

lemma all_settle_not_fulfilled:
  "j < length ps \<Longrightarrow> ps ! j = Inl e \<Longrightarrow> length slots = length ps \<Longrightarrow> slots ! j = None \<Longrightarrow>
   all_settle ps slots order \<noteq> Fulfilled res"
proof (induction order arbitrary: slots)
  case Nil
  then have "slots ! j \<in> set slots" by (metis nth_mem)
  with Nil show ?case by (auto simp: list_all_iff)
next
  case (Cons k order)
  show ?case
  proof (cases "k < length ps")
    case False
    with Cons show ?thesis by simp
  next
    case True
    show ?thesis
    proof (cases "ps ! k")
      case (Inl e')
      with True show ?thesis by simp
    next
      case (Inr v)
      with Cons.prems have "k \<noteq> j" by auto
      with Cons.prems have "(slots[k := Some v]) ! j = None" by simp
      from Cons.IH [OF Cons.prems(1,2) _ this] Cons.prems(3) True Inr show ?thesis by simp
    qed
  qed
qed

lemma all_settle_fulfils:
  "length slots = length vs \<Longrightarrow>
   \<forall>i<length vs. slots ! i = None \<or> slots ! i = Some (vs ! i) \<Longrightarrow>
   \<forall>i<length vs. slots ! i \<noteq> None \<or> i \<in> set order \<Longrightarrow>
   all_settle (map Inr vs) slots order = Fulfilled vs"
proof (induction order arbitrary: slots)
  case Nil
  have all: "\<forall>i<length vs. slots ! i = Some (vs ! i)"
  proof (intro allI impI)
    fix i assume i: "i < length vs"
    with Nil.prems(2) have "slots ! i = None \<or> slots ! i = Some (vs ! i)" by blast
    moreover from Nil.prems(3) i have "slots ! i \<noteq> None" by simp
    ultimately show "slots ! i = Some (vs ! i)" by blast
  qed
  with Nil.prems(1) have "map the slots = vs" by (simp add: list_eq_iff_nth_eq)
  moreover from all Nil.prems(1) have "list_all (\<lambda>x. x \<noteq> None) slots"
    by (auto simp: list_all_length)
  ultimately show ?case by simp
next
  case (Cons k order)
  show ?case
  proof (cases "k < length vs")
    case False
    with Cons.prems(3) have "\<forall>i<length vs. slots ! i \<noteq> None \<or> i \<in> set order" by auto
    from Cons.IH [OF Cons.prems(1,2) this] False show ?thesis by simp
  next
    case True
    let ?slots = "slots[k := Some (vs ! k)]"
    have 1: "length ?slots = length vs" using Cons.prems(1) by simp
    have 2: "\<forall>i<length vs. ?slots ! i = None \<or> ?slots ! i = Some (vs ! i)"
      using Cons.prems(1,2) True by (auto simp: nth_list_update)
    have 3: "\<forall>i<length vs. ?slots ! i \<noteq> None \<or> i \<in> set order"
      using Cons.prems(1,3) True by (auto simp: nth_list_update)
    from Cons.IH [OF 1 2 3] True show ?thesis by simp
  qed
qed

lemma Promise_all_fulfils:
  "{..<length vs} \<subseteq> set order \<Longrightarrow> Promise_all (map Inr vs) order = Fulfilled vs"
  unfolding Promise_all_def
  by (rule all_settle_fulfils) auto

lemma Promise_all_rejects:
  "i \<in> set order \<Longrightarrow> i < length ps \<Longrightarrow> ps ! i = Inl e \<Longrightarrow>
   \<exists>j e'. Promise_all ps order = Rejected e' \<and> j < length ps \<and> ps ! j = Inl e'"
  unfolding Promise_all_def by (rule all_settle_rejects)

lemma Promise_all_not_fulfilled:
  "j < length ps \<Longrightarrow> ps ! j = Inl e \<Longrightarrow> Promise_all ps order \<noteq> Fulfilled res"
  unfolding Promise_all_def by (rule all_settle_not_fulfilled) auto

section \<open>Properties of the duration string\<close>

text \<open>How to compute the rounding at a given value: the shift that brings a positive value
  into the 53-bit integers is determined by the binade it lands in.\<close>

lemma takeWhile_upt_first:
  assumes "j < n" and "\<not> P j" and "\<And>i. i < j \<Longrightarrow> P i"
  shows "length (takeWhile P [0..<n]) = j"
proof -
  have split: "[0..<n] = [0..<j] @ j # [Suc j..<n]"
    using assms(1) by (metis less_imp_le_nat upt_add_eq_append upt_conv_Cons le0 le_add_diff_inverse plus_nat.add_0)
  have "takeWhile P ([0..<j] @ j # [Suc j..<n]) = [0..<j] @ takeWhile P (j # [Suc j..<n])"
    by (rule takeWhile_append2) (use assms(3) in simp)
  also have "\<dots> = [0..<j]" using assms(2) by simp
  finally show ?thesis by (simp add: split [symmetric])
qed

lemma binade_shift_eq:
  assumes "0 < q" and lo: "2 ^ 52 \<le> q * 2 ^ j" and hi: "q * 2 ^ j < 2 ^ 53" and "j < 1075"
  shows "binade_shift q = j"
  unfolding binade_shift_def
proof (rule takeWhile_upt_first)
  show "j < 1075" by fact
  show "\<not> q * 2 ^ j < 2 ^ 52" using lo by simp
  fix i assume "i < j"
  then have "Suc i \<le> j" by simp
  then have "(2::rat) ^ Suc i \<le> 2 ^ j" by (rule power_increasing) simp
  then have "q * 2 ^ Suc i \<le> q * 2 ^ j" using assms(1) by (simp add: mult_left_mono)
  with hi have "q * 2 ^ Suc i < 2 ^ 53" by simp
  then show "q * 2 ^ i < 2 ^ 52" by simp
qed

lemma round_half_even_down:
  "of_int f \<le> r \<Longrightarrow> r < of_int f + 1/2 \<Longrightarrow> round_half_even r = f"
proof -
  assume a: "of_int f \<le> r" "r < of_int f + 1/2"
  then have "\<lfloor>r\<rfloor> = f" by (intro floor_unique) simp_all
  with a show ?thesis by (simp add: round_half_even_def Let_def)
qed

lemma round_half_even_up:
  "of_int f + 1/2 < r \<Longrightarrow> r < of_int f + 1 \<Longrightarrow> round_half_even r = f + 1"
proof -
  assume a: "of_int f + 1/2 < r" "r < of_int f + 1"
  then have "\<lfloor>r\<rfloor> = f" by (intro floor_unique) simp_all
  with a show ?thesis by (simp add: round_half_even_def Let_def)
qed

lemma to_double_eval:
  assumes "0 < q" "j < 1075" "2 ^ 52 \<le> q * 2 ^ j" "q * 2 ^ j < 2 ^ 53"
    and "round_half_even (q * 2 ^ j) = m"
  shows "to_double q = of_int m / 2 ^ j"
proof -
  have "binade_shift q = j" using assms(1,3,4,2) by (rule binade_shift_eq)
  moreover have "\<bar>q\<bar> = q" using assms(1) by simp
  ultimately show ?thesis using assms(1,5) by (simp add: to_double_def Let_def)
qed

lemma toFixed1_eval:
  assumes "0 \<le> x" "of_nat n \<le> x * 10 + 1/2" "x * 10 + 1/2 < of_nat n + 1"
  shows "toFixed1 x = decimal (n div 10) @ ''.'' @ [digit (n mod 10)]"
proof -
  have "\<lfloor>x * 10 + 1/2\<rfloor> = int n" using assms(2,3) by (intro floor_unique) simp_all
  moreover have "\<bar>x\<bar> = x" using assms(1) by simp
  ultimately show ?thesis using assms(1) by (simp add: toFixed1_def Let_def)
qed

text \<open>The string has one digit after the point and names the tenth nearest to the value.\<close>

lemma toFixed1_nearest:
  "\<exists>n. toFixed1 x = (if x < 0 then ''-'' else []) @ decimal (n div 10) @ ''.'' @ [digit (n mod 10)]
       \<and> \<bar>of_nat n / 10 - \<bar>x\<bar>\<bar> \<le> 1 / 20"
proof -
  define n where "n = nat \<lfloor>\<bar>x\<bar> * 10 + 1 / 2\<rfloor>"
  have nonneg: "0 \<le> \<lfloor>\<bar>x\<bar> * 10 + 1 / 2\<rfloor>" by simp
  then have n: "of_nat n = (of_int \<lfloor>\<bar>x\<bar> * 10 + 1 / 2\<rfloor> :: rat)" by (simp add: n_def)
  have "of_int \<lfloor>\<bar>x\<bar> * 10 + 1 / 2\<rfloor> \<le> \<bar>x\<bar> * 10 + 1 / 2"
       "\<bar>x\<bar> * 10 + 1 / 2 < of_int \<lfloor>\<bar>x\<bar> * 10 + 1 / 2\<rfloor> + 1"
    by linarith+
  then have "\<bar>of_nat n / 10 - \<bar>x\<bar>\<bar> \<le> 1 / 20" unfolding n by linarith
  moreover have "toFixed1 x
      = (if x < 0 then ''-'' else []) @ decimal (n div 10) @ ''.'' @ [digit (n mod 10)]"
    by (simp add: toFixed1_def Let_def n_def)
  ultimately show ?thesis by blast
qed

text \<open>The rounding of the division is within half a unit in the last place, so the
  digits shown name the tenth nearest to the elapsed seconds, up to that rounding.\<close>

lemma round_half_even_error: "\<bar>of_int (round_half_even r) - r\<bar> \<le> 1 / 2"
proof -
  have "of_int \<lfloor>r\<rfloor> \<le> r" "r < of_int \<lfloor>r\<rfloor> + 1" by linarith+
  then show ?thesis
    by (auto simp: round_half_even_def Let_def abs_le_iff)
qed

lemma takeWhile_upt_stops:
  assumes "\<not> P n"
  shows "length (takeWhile P [0..<Suc n]) < Suc n"
    and "\<not> P (length (takeWhile P [0..<Suc n]))"
proof -
  let ?j = "length (takeWhile P [0..<Suc n])"
  show less: "?j < Suc n"
  proof (rule ccontr)
    assume "\<not> ?j < Suc n"
    moreover have "?j \<le> length [0..<Suc n]" by (rule length_takeWhile_le)
    ultimately have "?j = length [0..<Suc n]" by simp
    then have "takeWhile P [0..<Suc n] = [0..<Suc n]"
      by (metis takeWhile_eq_take take_all order_refl)
    then have "\<forall>x\<in>set [0..<Suc n]. P x" by (simp only: takeWhile_eq_all_conv)
    then have "P n" by simp
    with assms show False by simp
  qed
  then have "?j < length [0..<Suc n]" by simp
  then have "\<not> P ([0..<Suc n] ! ?j)" by (rule nth_length_takeWhile)
  moreover have "[0..<Suc n] ! ?j = ?j" using less by (metis add_0 nth_upt)
  ultimately show "\<not> P ?j" by simp
qed

lemma binade_shift_reaches:
  assumes "2 ^ 52 \<le> q * 2 ^ 1074"
  shows "2 ^ 52 \<le> q * 2 ^ binade_shift q"
proof -
  have n: "(1075::nat) = Suc 1074" by simp
  have "\<not> q * 2 ^ 1074 < 2 ^ 52" using assms by (simp only: not_less)
  then have "\<not> q * 2 ^ binade_shift q < 2 ^ 52"
    unfolding binade_shift_def n by (rule takeWhile_upt_stops(2))
  then show ?thesis by (simp only: not_less)
qed

lemma to_double_error:
  assumes "0 < q" and "2 ^ 52 \<le> q * 2 ^ 1074"
  shows "\<bar>to_double q - q\<bar> \<le> q / 2 ^ 53" and "0 < to_double q"
proof -
  define j where "j = binade_shift q"
  define m where "m = round_half_even (q * 2 ^ j)"
  have big: "2 ^ 52 \<le> q * 2 ^ j" unfolding j_def using assms(2) by (rule binade_shift_reaches)
  have td: "to_double q = of_int m / 2 ^ j"
    using assms(1) by (simp add: to_double_def Let_def j_def m_def)
  have e: "\<bar>of_int m - q * 2 ^ j\<bar> \<le> 1 / 2" unfolding m_def by (rule round_half_even_error)
  have "\<bar>to_double q - q\<bar> = \<bar>of_int m - q * 2 ^ j\<bar> / 2 ^ j"
    unfolding td by (simp add: abs_divide field_simps flip: abs_mult)
  also have "\<dots> \<le> (1 / 2) / 2 ^ j" using e by (intro divide_right_mono) simp_all
  also have "\<dots> \<le> q / 2 ^ 53"
  proof -
    have "(1 / 2 :: rat) * 2 ^ 53 \<le> q * 2 ^ j" using big by simp
    then show ?thesis by (simp add: field_simps)
  qed
  finally show "\<bar>to_double q - q\<bar> \<le> q / 2 ^ 53" .
  have "(1::rat) \<le> 2 ^ 52" by simp
  with e big have "0 < (of_int m :: rat)" by linarith
  then show "0 < to_double q" unfolding td by simp
qed

lemma duration_nearest_tenth:
  assumes "startTime \<le> endTime"
  shows "\<exists>n. duration startTime endTime = decimal (n div 10) @ ''.'' @ [digit (n mod 10)]
           \<and> \<bar>of_nat n / 10 - of_int (endTime - startTime) / 1000\<bar>
               \<le> (1 / 20 + (of_int (endTime - startTime) / 1000) / 2 ^ 53 :: rat)"
proof -
  define q :: rat where "q = of_int (endTime - startTime) / 1000"
  have q0: "0 \<le> q" using assms by (simp add: q_def)
  have x: "0 \<le> to_double q \<and> \<bar>to_double q - q\<bar> \<le> q / 2 ^ 53"
  proof (cases "q = 0")
    case True
    then show ?thesis by (simp add: to_double_def)
  next
    case False
    with q0 have pos: "0 < q" by simp
    then have "0 < endTime - startTime" by (simp add: q_def zero_less_divide_iff)
    then have "1 \<le> endTime - startTime" by simp
    then have "(1::rat) \<le> of_int (endTime - startTime)" by (metis of_int_1 of_int_le_iff)
    then have lo: "1 / 1000 \<le> q" by (simp add: q_def divide_right_mono)
    have "(2::rat) ^ 52 \<le> 1 / 1000 * 2 ^ 1074" by simp
    also have "\<dots> \<le> q * 2 ^ 1074" using lo by (intro mult_right_mono) simp_all
    finally have "2 ^ 52 \<le> q * 2 ^ 1074" .
    from to_double_error [OF pos this] show ?thesis by simp
  qed
  from toFixed1_nearest [of "to_double q"] x obtain n where
    n: "toFixed1 (to_double q) = decimal (n div 10) @ ''.'' @ [digit (n mod 10)]"
       "\<bar>of_nat n / 10 - to_double q\<bar> \<le> 1 / 20"
    by (auto simp: not_less [symmetric])
  from n(2) x have "\<bar>of_nat n / 10 - q\<bar> \<le> 1 / 20 + q / 2 ^ 53" by linarith
  with n(1) show ?thesis unfolding duration_def q_def by blast
qed

text \<open>A run of 1234 milliseconds shows as 1.2.\<close>

lemma sample_duration: "duration 1700000000000 1700000001234 = ''1.2''"
proof -
  have r: "round_half_even (617 / 500 * 2 ^ 52) = 5557441940175192"
    by (rule round_half_even_down) simp_all
  have d: "to_double (617 / 500) = of_int 5557441940175192 / 2 ^ 52"
    by (rule to_double_eval [OF _ _ _ _ r]) simp_all
  have "toFixed1 (of_int 5557441940175192 / 2 ^ 52)
          = decimal (12 div 10) @ ''.'' @ [digit (12 mod 10)]"
    by (rule toFixed1_eval) simp_all
  then show ?thesis
    by (simp add: duration_def d decimal.simps digit_def)
qed

section \<open>The inference service\<close>

lemma checkEligibility_Inr:
  "checkEligibility E svc p sid = Inr r \<Longrightarrow>
   \<exists>t data. svc (eligibilityPrompt E p sid) = Inr t \<and> parse_text E t = Some data
     \<and> r = (spread data)(''schemeId'' \<mapsto> JStr sid,
                           ''schemeName'' \<mapsto> JStr (toUpperCase sid))"
  by (auto simp: checkEligibility_def split: sum.splits option.splits if_splits)

lemma checkEligibility_convertible:
  "fields_convertible p \<Longrightarrow>
   checkEligibility E svc p sid =
     (case svc (eligibilityPrompt E p sid) of
        Inl e \<Rightarrow> Inl e
      | Inr t \<Rightarrow>
          (case parse_text E t of
             None \<Rightarrow> Inl SyntaxError
           | Some data \<Rightarrow>
               Inr ((spread data)(''schemeId'' \<mapsto> JStr sid,
                                  ''schemeName'' \<mapsto> JStr (toUpperCase sid)))))"
  by (simp add: checkEligibility_def)


lemma sample_convertible:
  "fields_convertible sample_profile" "fields_convertible (profile sample_state)"
  by (simp_all add: fields_convertible_def sample_state_def sample_profile_def get_def)


lemma eligibilityPrompt_catalog:
  "eligibilityPrompt (E\<lparr>INITIAL_SCHEMES := catalog\<rparr>) p schemeId = eligibilityPrompt E p schemeId"
  by (simp add: eligibilityPrompt_def guidelines_for_def promptText_def prompt_head_def)

lemma checkEligibility_catalog:
  "checkEligibility (E\<lparr>INITIAL_SCHEMES := catalog\<rparr>) svc p schemeId
     = checkEligibility E svc p schemeId"
  by (simp add: checkEligibility_def eligibilityPrompt_catalog parse_text_def
        split: sum.splits option.splits)

lemma answering_check:
  "fields_convertible p \<Longrightarrow>
   checkEligibility sample_env (answering i) p sid =
     Inr ((spread (if i = 1 then JObj [(''isEligible'', JBool False), (''schemeName'', JStr ''Scheme'')]
                   else JObj [(''isEligible'', JBool True)]))
            (''schemeId'' \<mapsto> JStr sid, ''schemeName'' \<mapsto> JStr (toUpperCase sid)))"
  by (simp add: checkEligibility_def answering_def sample_env_def parse_text_def sample_parse_def)

lemma failing_second_check:
  "fields_convertible p \<Longrightarrow>
   checkEligibility sample_env (failing_second 1) p sid = Inl (ServiceError ''503'')"
  by (simp add: checkEligibility_def failing_second_def)

lemma mistyped_check:
  "fields_convertible p \<Longrightarrow>
   checkEligibility sample_env (mistyped i) p sid =
     Inr ((spread (JObj [(''isEligible'', JStr ''no'')]))
            (''schemeId'' \<mapsto> JStr sid, ''schemeName'' \<mapsto> JStr (toUpperCase sid)))"
  by (simp add: checkEligibility_def mistyped_def sample_env_def parse_text_def sample_parse_def)

text \<open>
  C6 (as the code has it).  \<open>extractProfileFromText\<close> throws exactly when the remote call
  is rejected, and then with that rejection.  When the call returns it does not throw:
  a text that does not parse, or no text, gives the empty object, and a text that parses
  gives the parsed value as it is, whatever its keys and the types of its values.
\<close>

theorem extractProfileFromText_outcomes:
  "(\<forall>e. svc (extractionPrompt text) = Inl e \<longrightarrow> extractProfileFromText E svc text = Inl e)
   \<and> (\<forall>t. svc (extractionPrompt text) = Inr t \<longrightarrow>
          extractProfileFromText E svc text
            = Inr (case parse_text E t of None \<Rightarrow> JObj [] | Some v \<Rightarrow> v))
   \<and> ((\<exists>e. extractProfileFromText E svc text = Inl e)
        \<longleftrightarrow> (\<exists>e. svc (extractionPrompt text) = Inl e))"
  by (auto simp: extractProfileFromText_def split: sum.splits option.splits)

theorem extractProfileFromText_outcomes_witness:
  "extractProfileFromText sample_env (replying (Some ''not json'')) ''I am Rajesh from Punjab''
     = Inr (JObj [])
   \<and> (\<exists>e. extractProfileFromText sample_env unavailable ''I am Rajesh from Punjab'' = Inl e)
   \<and> extractProfileFromText sample_env (replying None) ''I am Rajesh from Punjab''
     = Inr (JObj [])"
proof -
  have p: "parse_text sample_env (Some ''not json'') = None" "parse_text sample_env None = None"
    by (simp_all add: parse_text_def sample_env_def sample_parse_def)
  from extractProfileFromText_outcomes
         [of "replying (Some ''not json'')" "''I am Rajesh from Punjab''" sample_env]
       extractProfileFromText_outcomes
         [of "replying None" "''I am Rajesh from Punjab''" sample_env]
       extractProfileFromText_outcomes
         [of unavailable "''I am Rajesh from Punjab''" sample_env]
  show ?thesis by (simp add: p replying_def unavailable_def)
qed

text \<open>
  C6 (as the specification states it) fails twice: a rejected remote call is thrown on to
  the caller, and a well-formed reply with a key outside the six profile fields is
  returned unchanged.
\<close>

theorem extractProfileFromText_throws_and_passes_through:
  \<open>extractProfileFromText sample_env unavailable ''I am Rajesh from Punjab''
     = Inl (ServiceError ''503'')
   \<and> extractProfileFromText sample_env (replying (Some ''{"age":40}''))
        ''I am Rajesh from Punjab''
     = Inr (JObj [(''age'', JNum (Finite 40))])\<close>
  by (simp add: extractProfileFromText_def unavailable_def replying_def parse_text_def
        sample_env_def sample_parse_def)




text \<open>
  C10.  In every result of \<open>checkEligibility\<close> the field \<open>schemeId\<close> is the id
  passed in and \<open>schemeName\<close> is that id in upper case, whatever the reply held under
  those two names; every other field is as parsed from the reply.  The catalog plays no
  part: with any other catalog the result is the same, so the name is not the display
  name of the scheme.
\<close>

theorem checkEligibility_names:
  assumes "checkEligibility E svc p schemeId = Inr r"
  shows "get r ''schemeId'' = JStr schemeId
       \<and> get r ''schemeName'' = JStr (toUpperCase schemeId)
       \<and> (\<exists>t data. svc (eligibilityPrompt E p schemeId) = Inr t \<and> parse_text E t = Some data
            \<and> (\<forall>k. k \<noteq> ''schemeId'' \<and> k \<noteq> ''schemeName'' \<longrightarrow> r k = spread data k))
       \<and> checkEligibility (E\<lparr>INITIAL_SCHEMES := catalog\<rparr>) svc p schemeId = Inr r"
proof -
  from checkEligibility_Inr [OF assms] obtain t data where
    t: "svc (eligibilityPrompt E p schemeId) = Inr t" "parse_text E t = Some data"
    and r: "r = (spread data)(''schemeId'' \<mapsto> JStr schemeId,
                              ''schemeName'' \<mapsto> JStr (toUpperCase schemeId))"
    by blast
  have "get r ''schemeId'' = JStr schemeId" "get r ''schemeName'' = JStr (toUpperCase schemeId)"
    by (simp_all add: r get_def)
  moreover have "\<forall>k. k \<noteq> ''schemeId'' \<and> k \<noteq> ''schemeName'' \<longrightarrow> r k = spread data k"
    by (simp add: r)
  moreover have "checkEligibility (E\<lparr>INITIAL_SCHEMES := catalog\<rparr>) svc p schemeId = Inr r"
    unfolding checkEligibility_catalog by (rule assms)
  ultimately show ?thesis using t by blast
qed

text \<open>The reply names the scheme itself and the catalog has a display name; the result
  carries neither.\<close>

theorem checkEligibility_names_witness:
  "(\<exists>r. checkEligibility sample_env (answering 1) sample_profile ''pmfby'' = Inr r
        \<and> get r ''schemeId'' = JStr ''pmfby''
        \<and> get r ''schemeName'' = JStr ''PMFBY''
        \<and> get r ''isEligible'' = JBool False)
   \<and> scheme_name (INITIAL_SCHEMES sample_env ! 1) = ''Pradhan Mantri Fasal Bima Yojana''"
proof -
  let ?r = "(spread (JObj [(''isEligible'', JBool False), (''schemeName'', JStr ''Scheme'')]))
              (''schemeId'' \<mapsto> JStr ''pmfby'', ''schemeName'' \<mapsto> JStr (toUpperCase ''pmfby''))"
  have c: "checkEligibility sample_env (answering 1) sample_profile ''pmfby'' = Inr ?r"
    by (simp add: answering_check sample_convertible)
  have u: "toUpperCase ''pmfby'' = ''PMFBY''" by (simp add: toUpperCase_def)
  have e: "get ?r ''isEligible'' = JBool False" by (simp add: get_def)
  have n: "scheme_name (INITIAL_SCHEMES sample_env ! 1) = ''Pradhan Mantri Fasal Bima Yojana''"
    by (simp add: sample_env_def sample_catalog_def)
  from checkEligibility_names [OF c] have "get ?r ''schemeId'' = JStr ''pmfby''"
    "get ?r ''schemeName'' = JStr ''PMFBY''"
    unfolding u by blast+
  with c e n show ?thesis by blast
qed

section \<open>The analysis run\<close>

lemma runAnalysis_early_return:
  "\<not> truthy (get (profile s) ''name'') \<or> \<not> truthy (get (profile s) ''state'') \<Longrightarrow>
   runAnalysis E svc order startTime endTime s =
     \<lparr>final = s, calls = [], outcome = Alerted ''Please fill in at least Name and State.''\<rparr>"
  by (simp add: runAnalysis_def)

lemma runAnalysis_unfold:
  assumes "truthy (get (profile s) ''name'')" and "truthy (get (profile s) ''state'')"
  shows "runAnalysis E svc order startTime endTime s =
     (case Promise_all
             (map (\<lambda>(i, sch). checkEligibility E (svc i) (profile s) (scheme_id sch))
                  (enumerate 0 (INITIAL_SCHEMES E))) order of
        Pending \<Rightarrow> \<lparr>final = s\<lparr>isLoading := True\<rparr>,
                     calls = map (\<lambda>sch. eligibilityPrompt E (profile s) (scheme_id sch))
                                 (INITIAL_SCHEMES E),
                     outcome = Unsettled\<rparr>
      | Rejected e \<Rightarrow> \<lparr>final = s\<lparr>isLoading := False\<rparr>,
                     calls = map (\<lambda>sch. eligibilityPrompt E (profile s) (scheme_id sch))
                                 (INITIAL_SCHEMES E),
                     outcome = Caught e\<rparr>
      | Fulfilled res \<Rightarrow>
          \<lparr>final = s\<lparr>results := res,
                      metrics := (metrics s)
                        \<lparr>checksPerformed := checksPerformed (metrics s) + 1,
                         avgResponseTime := duration startTime endTime @ ''s'',
                         eligibleCount :=
                           length (filter (\<lambda>r. truthy (get r ''isEligible'')) res)\<rparr>,
                      activeTab := Results,
                      isLoading := False\<rparr>,
           calls = map (\<lambda>sch. eligibilityPrompt E (profile s) (scheme_id sch))
                       (INITIAL_SCHEMES E),
           outcome = Completed\<rparr>)"
  using assms by (simp add: runAnalysis_def Let_def split: settled.splits)

lemma checks_nth:
  "i < length cat \<Longrightarrow>
   map (\<lambda>(i, sch). checkEligibility E (svc i) p (scheme_id sch)) (enumerate 0 cat) ! i
     = checkEligibility E (svc i) p (scheme_id (cat ! i))"
  by (simp add: nth_enumerate_eq)

lemma count_true:
  "\<forall>r\<in>set rs. get r ''isEligible'' \<in> {JBool True, JBool False, JUndefined} \<Longrightarrow>
   filter (\<lambda>r. truthy (get r ''isEligible'')) rs = filter (\<lambda>r. get r ''isEligible'' = JBool True) rs"
  by (rule filter_cong) auto

lemma sample_valid:
  "truthy (get (profile sample_state) ''name'')" "truthy (get (profile sample_state) ''state'')"
  by (simp_all add: sample_state_def sample_profile_def get_def)

lemma sample_catalog_length: "length (INITIAL_SCHEMES sample_env) = 3"
  by (simp add: sample_env_def sample_catalog_def)

lemma sample_order: "{..<3} \<subseteq> set [2, 0, Suc 0]"
  by (auto simp: lessThan_def less_Suc_eq numeral_3_eq_3)

lemma sample_run:
  "runAnalysis sample_env answering [2, 0, 1] 1700000000000 1700000001234 sample_state =
     \<lparr>final = sample_state
        \<lparr>results :=
           map (\<lambda>(i, sch).
                  (spread (if i = 1 then JObj [(''isEligible'', JBool False),
                                               (''schemeName'', JStr ''Scheme'')]
                           else JObj [(''isEligible'', JBool True)]))
                    (''schemeId'' \<mapsto> JStr (scheme_id sch),
                     ''schemeName'' \<mapsto> JStr (toUpperCase (scheme_id sch))))
               (enumerate 0 sample_catalog),
         metrics := \<lparr>schemesAnalyzed = 3, checksPerformed = 1, avgResponseTime = ''1.2s'',
                      eligibleCount = 2\<rparr>,
         activeTab := Results, isLoading := False\<rparr>,
      calls = map (\<lambda>sch. eligibilityPrompt sample_env sample_profile (scheme_id sch)) sample_catalog,
      outcome = Completed\<rparr>"
proof -
  let ?f = "\<lambda>(i, sch).
                  (spread (if i = 1 then JObj [(''isEligible'', JBool False),
                                               (''schemeName'', JStr ''Scheme'')]
                           else JObj [(''isEligible'', JBool True)]))
                    (''schemeId'' \<mapsto> JStr (scheme_id sch),
                     ''schemeName'' \<mapsto> JStr (toUpperCase (scheme_id sch)))"
  let ?vs = "map ?f (enumerate 0 sample_catalog)"
  have ps: "map (\<lambda>(i, sch). checkEligibility sample_env (answering i) (profile sample_state)
                   (scheme_id sch)) (enumerate 0 (INITIAL_SCHEMES sample_env))
            = map Inr ?vs"
    unfolding answering_check [OF sample_convertible(2)]
    by (simp add: sample_env_def case_prod_unfold)
  have "{..<length ?vs} \<subseteq> set [2, 0, 1]"
    by (auto simp: sample_catalog_def)
  then have all: "Promise_all (map Inr ?vs) [2, 0, 1] = Fulfilled ?vs"
    by (rule Promise_all_fulfils)
  have m: "metrics sample_state = \<lparr>schemesAnalyzed = 3, checksPerformed = 0,
             avgResponseTime = ''0.0s'', eligibleCount = 0\<rparr>"
    by (simp add: sample_state_def initial_state_def)
  have p: "profile sample_state = sample_profile" "INITIAL_SCHEMES sample_env = sample_catalog"
    by (simp_all add: sample_state_def sample_env_def)
  show ?thesis
    unfolding runAnalysis_unfold [OF sample_valid] ps all
    by (simp add: m p sample_duration sample_catalog_def get_def)
qed

lemma mistyped_run:
  "runAnalysis sample_env mistyped [2, 0, 1] 1700000000000 1700000001234 sample_state =
     \<lparr>final = sample_state
        \<lparr>results :=
           map (\<lambda>(i, sch).
                  (spread (JObj [(''isEligible'', JStr ''no'')]))
                    (''schemeId'' \<mapsto> JStr (scheme_id sch),
                     ''schemeName'' \<mapsto> JStr (toUpperCase (scheme_id sch))))
               (enumerate 0 sample_catalog),
         metrics := \<lparr>schemesAnalyzed = 3, checksPerformed = 1, avgResponseTime = ''1.2s'',
                      eligibleCount = 3\<rparr>,
         activeTab := Results, isLoading := False\<rparr>,
      calls = map (\<lambda>sch. eligibilityPrompt sample_env sample_profile (scheme_id sch)) sample_catalog,
      outcome = Completed\<rparr>"
proof -
  let ?f = "\<lambda>(i, sch).
                  (spread (JObj [(''isEligible'', JStr ''no'')]))
                    (''schemeId'' \<mapsto> JStr (scheme_id sch),
                     ''schemeName'' \<mapsto> JStr (toUpperCase (scheme_id sch)))"
  let ?vs = "map ?f (enumerate 0 sample_catalog)"
  have ps: "map (\<lambda>(i, sch). checkEligibility sample_env (mistyped i) (profile sample_state)
                   (scheme_id sch)) (enumerate 0 (INITIAL_SCHEMES sample_env))
            = map Inr ?vs"
    unfolding mistyped_check [OF sample_convertible(2)]
    by (simp add: sample_env_def case_prod_unfold)
  have "{..<length ?vs} \<subseteq> set [2, 0, 1]"
    by (auto simp: sample_catalog_def)
  then have all: "Promise_all (map Inr ?vs) [2, 0, 1] = Fulfilled ?vs"
    by (rule Promise_all_fulfils)
  have m: "metrics sample_state = \<lparr>schemesAnalyzed = 3, checksPerformed = 0,
             avgResponseTime = ''0.0s'', eligibleCount = 0\<rparr>"
    by (simp add: sample_state_def initial_state_def)
  have p: "profile sample_state = sample_profile" "INITIAL_SCHEMES sample_env = sample_catalog"
    by (simp_all add: sample_state_def sample_env_def)
  show ?thesis
    unfolding runAnalysis_unfold [OF sample_valid] ps all
    by (simp add: m p sample_duration sample_catalog_def get_def)
qed

lemma failing_second_checks:
  "map (\<lambda>(i, sch). checkEligibility sample_env (failing_second i) (profile sample_state)
                      (scheme_id sch)) (enumerate 0 (INITIAL_SCHEMES sample_env))
   = [Inr [''isEligible'' \<mapsto> JBool True, ''schemeId'' \<mapsto> JStr ''pm-kisan'',
           ''schemeName'' \<mapsto> JStr ''PM-KISAN''],
      Inl (ServiceError ''503''),
      Inr [''isEligible'' \<mapsto> JBool True, ''schemeId'' \<mapsto> JStr ''kcc'',
           ''schemeName'' \<mapsto> JStr ''KCC'']]"
  unfolding checkEligibility_convertible [OF sample_convertible(2)]
  by (simp add: failing_second_def sample_env_def sample_catalog_def
        parse_text_def sample_parse_def toUpperCase_def)

lemma failing_run_outcome:
  "outcome (runAnalysis sample_env failing_second [2, 0, 1] 1700000000000 1700000001234
      sample_state) = Caught (ServiceError ''503'')"
  unfolding runAnalysis_unfold [OF sample_valid] failing_second_checks
  by (simp add: Promise_all_def)

text \<open>
  C4.  With a profile whose name or state is missing or empty, \<open>runAnalysis\<close> stops at
  once with the validation alert: it issues no remote call and leaves the whole state,
  profile, results and metrics included, as it was.
\<close>

theorem runAnalysis_validation:
  assumes "get (profile s) ''name'' \<in> {JUndefined, JStr []}
         \<or> get (profile s) ''state'' \<in> {JUndefined, JStr []}"
  shows "runAnalysis E svc order startTime endTime s =
           \<lparr>final = s, calls = [],
            outcome = Alerted ''Please fill in at least Name and State.''\<rparr>"
proof -
  from assms have "\<not> truthy (get (profile s) ''name'') \<or> \<not> truthy (get (profile s) ''state'')"
    by auto
  then show ?thesis by (rule runAnalysis_early_return)
qed

theorem runAnalysis_validation_witness:
  "get (profile ((initial_state 3)\<lparr>profile := [''state'' \<mapsto> JStr ''Punjab'']\<rparr>)) ''name''
     = JUndefined
   \<and> runAnalysis sample_env answering [2, 0, 1] 1700000000000 1700000001234
        ((initial_state 3)\<lparr>profile := [''state'' \<mapsto> JStr ''Punjab'']\<rparr>)
       = \<lparr>final = (initial_state 3)\<lparr>profile := [''state'' \<mapsto> JStr ''Punjab'']\<rparr>,
          calls = [], outcome = Alerted ''Please fill in at least Name and State.''\<rparr>"
proof -
  let ?s = "(initial_state 3)\<lparr>profile := [''state'' \<mapsto> JStr ''Punjab'']\<rparr>"
  have u: "get (profile ?s) ''name'' = JUndefined" by (simp add: get_def)
  then have "get (profile ?s) ''name'' \<in> {JUndefined, JStr []}
           \<or> get (profile ?s) ''state'' \<in> {JUndefined, JStr []}" by simp
  from runAnalysis_validation [OF this] u show ?thesis by blast
qed

text \<open>
  C1.  If any one of the evaluator calls of a run fails, the run does not complete, and
  the stored results and the metrics (and the profile) keep the values they had before
  the run; once the failure has arrived the run ends in the \<open>catch\<close> branch.
\<close>

theorem runAnalysis_all_or_nothing:
  assumes valid: "truthy (get (profile s) ''name'')" "truthy (get (profile s) ''state'')"
    and i: "i < length (INITIAL_SCHEMES E)"
    and fails: "checkEligibility E (svc i) (profile s) (scheme_id (INITIAL_SCHEMES E ! i)) = Inl e"
  shows "results (final (runAnalysis E svc order startTime endTime s)) = results s
       \<and> metrics (final (runAnalysis E svc order startTime endTime s)) = metrics s
       \<and> profile (final (runAnalysis E svc order startTime endTime s)) = profile s
       \<and> outcome (runAnalysis E svc order startTime endTime s) \<noteq> Completed
       \<and> (i \<in> set order \<longrightarrow> (\<exists>e'. outcome (runAnalysis E svc order startTime endTime s) = Caught e'))"
proof -
  let ?ps = "map (\<lambda>(i, sch). checkEligibility E (svc i) (profile s) (scheme_id sch))
                 (enumerate 0 (INITIAL_SCHEMES E))"
  have len: "i < length ?ps" using i by simp
  have bad: "?ps ! i = Inl e" unfolding checks_nth [OF i] by (rule fails)
  have nf: "\<And>res. Promise_all ?ps order \<noteq> Fulfilled res"
    using len bad by (rule Promise_all_not_fulfilled)
  have rej: "i \<in> set order \<Longrightarrow> \<exists>e'. Promise_all ?ps order = Rejected e'"
    using Promise_all_rejects [OF _ len bad] by blast
  show ?thesis
    using nf rej by (cases "Promise_all ?ps order") (auto simp: runAnalysis_unfold [OF valid])
qed

theorem runAnalysis_all_or_nothing_witness:
  "truthy (get (profile sample_state) ''name'') \<and> truthy (get (profile sample_state) ''state'')
   \<and> 1 < length (INITIAL_SCHEMES sample_env)
   \<and> checkEligibility sample_env (failing_second 1) (profile sample_state)
        (scheme_id (INITIAL_SCHEMES sample_env ! 1)) = Inl (ServiceError ''503'')
   \<and> results (final (runAnalysis sample_env failing_second [2, 0, 1] 1700000000000 1700000001234
        sample_state)) = []
   \<and> metrics (final (runAnalysis sample_env failing_second [2, 0, 1] 1700000000000 1700000001234
        sample_state))
       = \<lparr>schemesAnalyzed = 3, checksPerformed = 0, avgResponseTime = ''0.0s'', eligibleCount = 0\<rparr>
   \<and> outcome (runAnalysis sample_env failing_second [2, 0, 1] 1700000000000 1700000001234
        sample_state) = Caught (ServiceError ''503'')"
proof -
  have i: "1 < length (INITIAL_SCHEMES sample_env)" by (simp add: sample_catalog_length)
  have f: "checkEligibility sample_env (failing_second 1) (profile sample_state)
             (scheme_id (INITIAL_SCHEMES sample_env ! 1)) = Inl (ServiceError ''503'')"
    by (rule failing_second_check) (rule sample_convertible)
  have s: "results sample_state = []"
    "metrics sample_state
       = \<lparr>schemesAnalyzed = 3, checksPerformed = 0, avgResponseTime = ''0.0s'', eligibleCount = 0\<rparr>"
    by (simp_all add: sample_state_def initial_state_def)
  from runAnalysis_all_or_nothing [where s = sample_state and E = sample_env
      and svc = failing_second and i = 1 and e = "ServiceError ''503''"
      and order = "[2, 0, 1]" and startTime = 1700000000000 and endTime = 1700000001234]
  show ?thesis using sample_valid i f s failing_run_outcome by simp
qed

text \<open>
  C2.  With a profile whose name and state are non-empty, \<open>runAnalysis\<close> issues exactly
  one evaluator call per catalog entry, in catalog order; and when each call succeeds,
  it completes with exactly as many results as the catalog has entries, the \<open>i\<close>-th
  result being that of the \<open>i\<close>-th entry, in whatever order the calls settle.
\<close>

theorem runAnalysis_calls_and_results:
  assumes valid: "truthy (get (profile s) ''name'')" "truthy (get (profile s) ''state'')"
  shows "calls (runAnalysis E svc order startTime endTime s)
           = map (\<lambda>sch. eligibilityPrompt E (profile s) (scheme_id sch)) (INITIAL_SCHEMES E)
       \<and> length (calls (runAnalysis E svc order startTime endTime s)) = length (INITIAL_SCHEMES E)
       \<and> ((\<forall>i<length (INITIAL_SCHEMES E). \<exists>r.
              checkEligibility E (svc i) (profile s) (scheme_id (INITIAL_SCHEMES E ! i)) = Inr r)
           \<and> {..<length (INITIAL_SCHEMES E)} \<subseteq> set order \<longrightarrow>
            outcome (runAnalysis E svc order startTime endTime s) = Completed
          \<and> length (results (final (runAnalysis E svc order startTime endTime s))) = length (INITIAL_SCHEMES E)
          \<and> (\<forall>i<length (INITIAL_SCHEMES E).
                checkEligibility E (svc i) (profile s) (scheme_id (INITIAL_SCHEMES E ! i))
                  = Inr (results (final (runAnalysis E svc order startTime endTime s)) ! i)
              \<and> get (results (final (runAnalysis E svc order startTime endTime s)) ! i) ''schemeId''
                  = JStr (scheme_id (INITIAL_SCHEMES E ! i))))"
proof -
  let ?cat = "INITIAL_SCHEMES E"
  let ?ps = "map (\<lambda>(i, sch). checkEligibility E (svc i) (profile s) (scheme_id sch))
                 (enumerate 0 ?cat)"
  let ?R = "runAnalysis E svc order startTime endTime s"
  have calls: "calls ?R = map (\<lambda>sch. eligibilityPrompt E (profile s) (scheme_id sch)) ?cat"
    by (cases "Promise_all ?ps order") (simp_all add: runAnalysis_unfold [OF valid])
  have ok: "outcome ?R = Completed \<and> length (results (final ?R)) = length ?cat
          \<and> (\<forall>i<length ?cat.
                checkEligibility E (svc i) (profile s) (scheme_id (?cat ! i))
                  = Inr (results (final ?R) ! i)
              \<and> get (results (final ?R) ! i) ''schemeId'' = JStr (scheme_id (?cat ! i)))"
    if all: "\<forall>i<length ?cat. \<exists>r.
               checkEligibility E (svc i) (profile s) (scheme_id (?cat ! i)) = Inr r"
      and settle: "{..<length ?cat} \<subseteq> set order"
  proof -
    define vs where "vs = map projr ?ps"
    have nth: "?ps ! i = Inr (vs ! i)" if "i < length ?cat" for i
    proof -
      from all that obtain r where
        "checkEligibility E (svc i) (profile s) (scheme_id (?cat ! i)) = Inr r" by blast
      then have "?ps ! i = Inr r" unfolding checks_nth [OF that] .
      moreover from that have "vs ! i = projr (?ps ! i)" by (simp add: vs_def)
      ultimately show ?thesis by simp
    qed
    have lvs: "length vs = length ?cat" by (simp add: vs_def)
    have ps: "?ps = map Inr vs"
      by (rule nth_equalityI) (use nth lvs in simp_all)
    have "Promise_all ?ps order = Fulfilled vs"
      unfolding ps by (rule Promise_all_fulfils) (use settle lvs in simp)
    then have R: "outcome ?R = Completed" "results (final ?R) = vs"
      by (simp_all add: runAnalysis_unfold [OF valid])
    have each: "checkEligibility E (svc i) (profile s) (scheme_id (?cat ! i)) = Inr (vs ! i)"
      if "i < length ?cat" for i
      using nth [OF that] unfolding checks_nth [OF that] .
    have sid: "get (vs ! i) ''schemeId'' = JStr (scheme_id (?cat ! i))"
      if "i < length ?cat" for i
      using checkEligibility_Inr [OF each [OF that]] by (auto simp: get_def)
    show ?thesis using R lvs each sid by simp
  qed
  show ?thesis using calls ok by simp
qed

theorem runAnalysis_calls_and_results_witness:
  "truthy (get (profile sample_state) ''name'') \<and> truthy (get (profile sample_state) ''state'')
   \<and> length (calls (runAnalysis sample_env answering [2, 0, 1] 1700000000000 1700000001234
        sample_state)) = 3
   \<and> outcome (runAnalysis sample_env answering [2, 0, 1] 1700000000000 1700000001234
        sample_state) = Completed
   \<and> length (results (final (runAnalysis sample_env answering [2, 0, 1] 1700000000000
        1700000001234 sample_state))) = 3
   \<and> get (results (final (runAnalysis sample_env answering [2, 0, 1] 1700000000000
        1700000001234 sample_state)) ! 0) ''schemeId'' = JStr ''pm-kisan''
   \<and> get (results (final (runAnalysis sample_env answering [2, 0, 1] 1700000000000
        1700000001234 sample_state)) ! 1) ''schemeId'' = JStr ''pmfby''
   \<and> get (results (final (runAnalysis sample_env answering [2, 0, 1] 1700000000000
        1700000001234 sample_state)) ! 2) ''schemeId'' = JStr ''kcc''"
proof -
  let ?R = "runAnalysis sample_env answering [2, 0, 1] 1700000000000 1700000001234 sample_state"
  have all: "\<forall>i<length (INITIAL_SCHEMES sample_env). \<exists>r.
               checkEligibility sample_env (answering i) (profile sample_state)
                 (scheme_id (INITIAL_SCHEMES sample_env ! i)) = Inr r"
    by (simp add: answering_check sample_convertible)
  have ord: "{..<length (INITIAL_SCHEMES sample_env)} \<subseteq> set [2, 0, 1]"
    using sample_order by (simp add: sample_catalog_length)
  note T = runAnalysis_calls_and_results [OF sample_valid, where E = sample_env
      and svc = answering and order = "[2, 0, 1]" and startTime = 1700000000000
      and endTime = 1700000001234]
  from T have len: "length (calls ?R) = 3" by (simp add: sample_catalog_length)
  from T all ord have ok: "outcome ?R = Completed" "length (results (final ?R)) = 3"
    by (simp_all add: sample_catalog_length)
  from T all ord have ids: "\<forall>i<3. get (results (final ?R) ! i) ''schemeId''
                               = JStr (scheme_id (INITIAL_SCHEMES sample_env ! i))"
    by (simp add: sample_catalog_length)
  have c: "scheme_id (INITIAL_SCHEMES sample_env ! 0) = ''pm-kisan''"
          "scheme_id (INITIAL_SCHEMES sample_env ! 1) = ''pmfby''"
          "scheme_id (INITIAL_SCHEMES sample_env ! 2) = ''kcc''"
    by (simp_all add: sample_env_def sample_catalog_def)
  from ids c have "get (results (final ?R) ! 0) ''schemeId'' = JStr ''pm-kisan''"
    "get (results (final ?R) ! 1) ''schemeId'' = JStr ''pmfby''"
    "get (results (final ?R) ! 2) ''schemeId'' = JStr ''kcc''"
    by (metis zero_less_numeral, metis one_less_numeral_iff semiring_norm(77), metis lessI numeral_3_eq_3 numeral_2_eq_2)
  with sample_valid len ok show ?thesis by simp
qed

text \<open>
  C3 (as the code has it).  On a run that completes, \<open>checksPerformed\<close> grows by
  exactly one, whatever the size of the catalog; \<open>avgResponseTime\<close> becomes the elapsed
  time formatted by \<open>toFixed(1)\<close> and followed by \<open>s\<close>: for a clock that did not
  run backwards, digits, a point and one digit, naming the tenth nearest to the elapsed
  seconds up to the rounding of the division; \<open>eligibleCount\<close> becomes the number of
  new results whose \<open>isEligible\<close> is truthy, which is the number of those with
  \<open>isEligible = true\<close> when every such field is a boolean or absent;
  \<open>schemesAnalyzed\<close> is unchanged.  The counter is a natural number here: a double
  counts exactly far beyond any number of runs.
\<close>

theorem runAnalysis_metrics:
  assumes "outcome (runAnalysis E svc order startTime endTime s) = Completed"
  shows "checksPerformed (metrics (final (runAnalysis E svc order startTime endTime s)))
           = checksPerformed (metrics s) + 1
       \<and> avgResponseTime (metrics (final (runAnalysis E svc order startTime endTime s)))
           = duration startTime endTime @ ''s''
       \<and> (startTime \<le> endTime \<longrightarrow>
            (\<exists>n. avgResponseTime (metrics (final (runAnalysis E svc order startTime endTime s)))
                   = decimal (n div 10) @ ''.'' @ [digit (n mod 10)] @ ''s''
                \<and> \<bar>of_nat n / 10 - of_int (endTime - startTime) / 1000\<bar>
                    \<le> (1 / 20 + (of_int (endTime - startTime) / 1000) / 2 ^ 53 :: rat)))
       \<and> eligibleCount (metrics (final (runAnalysis E svc order startTime endTime s)))
           = length (filter (\<lambda>r. truthy (get r ''isEligible''))
                            (results (final (runAnalysis E svc order startTime endTime s))))
       \<and> ((\<forall>r\<in>set (results (final (runAnalysis E svc order startTime endTime s))).
              get r ''isEligible'' \<in> {JBool True, JBool False, JUndefined}) \<longrightarrow>
            eligibleCount (metrics (final (runAnalysis E svc order startTime endTime s)))
              = length (filter (\<lambda>r. get r ''isEligible'' = JBool True)
                               (results (final (runAnalysis E svc order startTime endTime s)))))
       \<and> schemesAnalyzed (metrics (final (runAnalysis E svc order startTime endTime s)))
           = schemesAnalyzed (metrics s)"
proof -
  let ?ps = "map (\<lambda>(i, sch). checkEligibility E (svc i) (profile s) (scheme_id sch))
                 (enumerate 0 (INITIAL_SCHEMES E))"
  let ?R = "runAnalysis E svc order startTime endTime s"
  from assms have valid: "truthy (get (profile s) ''name'')" "truthy (get (profile s) ''state'')"
    by (auto simp: runAnalysis_def split: if_splits)
  from assms have base:
    "checksPerformed (metrics (final ?R)) = checksPerformed (metrics s) + 1"
    "avgResponseTime (metrics (final ?R)) = duration startTime endTime @ ''s''"
    "eligibleCount (metrics (final ?R))
       = length (filter (\<lambda>r. truthy (get r ''isEligible'')) (results (final ?R)))"
    "schemesAnalyzed (metrics (final ?R)) = schemesAnalyzed (metrics s)"
    by (cases "Promise_all ?ps order"; simp add: runAnalysis_unfold [OF valid])+
  have fmt: "\<exists>n. avgResponseTime (metrics (final ?R))
                   = decimal (n div 10) @ ''.'' @ [digit (n mod 10)] @ ''s''
                \<and> \<bar>of_nat n / 10 - of_int (endTime - startTime) / 1000\<bar>
                    \<le> (1 / 20 + (of_int (endTime - startTime) / 1000) / 2 ^ 53 :: rat)"
    if "startTime \<le> endTime"
    using duration_nearest_tenth [OF that] unfolding base(2) by auto
  show ?thesis using base fmt by (simp add: count_true)
qed

theorem runAnalysis_metrics_witness:
  "outcome (runAnalysis sample_env answering [2, 0, 1] 1700000000000 1700000001234 sample_state)
     = Completed
   \<and> checksPerformed (metrics sample_state) = 0
   \<and> (1700000000000 :: int) \<le> 1700000001234
   \<and> map (\<lambda>r. get r ''isEligible'')
         (results (final (runAnalysis sample_env answering [2, 0, 1] 1700000000000
              1700000001234 sample_state)))
       = [JBool True, JBool False, JBool True]
   \<and> length (filter (\<lambda>r. get r ''isEligible'' = JBool True)
         (results (final (runAnalysis sample_env answering [2, 0, 1] 1700000000000
              1700000001234 sample_state)))) = 2
   \<and> metrics (final (runAnalysis sample_env answering [2, 0, 1] 1700000000000 1700000001234
        sample_state))
       = \<lparr>schemesAnalyzed = 3, checksPerformed = 1, avgResponseTime = ''1.2s'', eligibleCount = 2\<rparr>"
proof -
  have c: "outcome (runAnalysis sample_env answering [2, 0, 1] 1700000000000 1700000001234
             sample_state) = Completed"
    unfolding sample_run by simp
  have m: "checksPerformed (metrics sample_state) = 0"
    by (simp add: sample_state_def initial_state_def)
  have r: "metrics (final (runAnalysis sample_env answering [2, 0, 1] 1700000000000
             1700000001234 sample_state))
       = \<lparr>schemesAnalyzed = 3, checksPerformed = 1, avgResponseTime = ''1.2s'', eligibleCount = 2\<rparr>"
    unfolding sample_run by simp
  have b: "\<forall>r\<in>set (results (final (runAnalysis sample_env answering [2, 0, 1] 1700000000000
              1700000001234 sample_state))).
          get r ''isEligible'' \<in> {JBool True, JBool False, JUndefined}"
    unfolding sample_run by (simp add: sample_catalog_def get_def)
  from runAnalysis_metrics [OF c] b r
  have "length (filter (\<lambda>r. get r ''isEligible'' = JBool True)
         (results (final (runAnalysis sample_env answering [2, 0, 1] 1700000000000
              1700000001234 sample_state)))) = 2"
    by simp
  moreover have "map (\<lambda>r. get r ''isEligible'')
         (results (final (runAnalysis sample_env answering [2, 0, 1] 1700000000000
              1700000001234 sample_state)))
       = [JBool True, JBool False, JBool True]"
    unfolding sample_run by (simp add: sample_catalog_def get_def)
  ultimately show ?thesis using c m r by simp
qed

text \<open>
  C3 (as the specification states it) fails: \<open>filter(r => r.isEligible)\<close> counts every
  truthy value.  With a service whose three verdicts carry the string \<open>no\<close>, the run
  completes and \<open>eligibleCount\<close> becomes three, although no result has
  \<open>isEligible = true\<close>.
\<close>

theorem runAnalysis_counts_truthy_verdicts:
  "outcome (runAnalysis sample_env mistyped [2, 0, 1] 1700000000000 1700000001234 sample_state)
     = Completed
   \<and> length (results (final (runAnalysis sample_env mistyped [2, 0, 1] 1700000000000
        1700000001234 sample_state))) = 3
   \<and> get (results (final (runAnalysis sample_env mistyped [2, 0, 1] 1700000000000
        1700000001234 sample_state)) ! 0) ''isEligible'' = JStr ''no''
   \<and> get (results (final (runAnalysis sample_env mistyped [2, 0, 1] 1700000000000
        1700000001234 sample_state)) ! 1) ''isEligible'' = JStr ''no''
   \<and> get (results (final (runAnalysis sample_env mistyped [2, 0, 1] 1700000000000
        1700000001234 sample_state)) ! 2) ''isEligible'' = JStr ''no''
   \<and> JStr ''no'' \<noteq> JBool True
   \<and> eligibleCount (metrics (final (runAnalysis sample_env mistyped [2, 0, 1] 1700000000000
        1700000001234 sample_state))) = 3"
  unfolding mistyped_run by (simp add: sample_catalog_def get_def)

section \<open>Speech capture\<close>

text \<open>
  C8 (as the code has it).  \<open>stopListening\<close>, invoked while the component listens, calls
  \<open>stop()\<close> on the recognition object and clears \<open>isListening\<close> at once.  The
  session is stopped, not aborted as the cleanup does, and a result the platform still
  delivers for it is taken by the handler: the transcript is set and the extraction
  begins.
\<close>

theorem stopListening_stops_without_abort:
  assumes "isListening v" and "recognition v = Some Started"
  shows "stopListening v = v\<lparr>recognition := Some Stopping, isListening := False\<rparr>
       \<and> recognition (stopListening v) \<noteq> recognition (cleanup v)
       \<and> deliver (Result t) (stopListening v)
           = Some (v\<lparr>recognition := Some Stopping, transcript := t, isListening := False,
                     isProcessing := True\<rparr>)"
  using assms
  by (simp add: stopListening_def recognition_stop_def cleanup_def recognition_abort_def
        deliver_def onresult_def)

theorem stopListening_stops_without_abort_witness:
  "isListening listening \<and> recognition listening = Some Started
   \<and> stopListening listening
       = \<lparr>isListening = False, transcript = [], isProcessing = False, error = None,
          recognition = Some Stopping\<rparr>
   \<and> recognition (cleanup listening) = Some Aborting"
proof -
  have l: "isListening listening" "recognition listening = Some Started"
    by (simp_all add: listening_def)
  have c: "recognition (cleanup listening) = Some Aborting"
    by (simp add: cleanup_def listening_def recognition_abort_def)
  from stopListening_stops_without_abort [OF l] l c show ?thesis
    by (simp add: listening_def)
qed

text \<open>
  C8 (as the specification states it) fails: after \<open>stopListening\<close> the session is
  stopping, not aborted, and its result is delivered and becomes the transcript.  After
  the cleanup, which aborts, there is no such delivery.
\<close>

theorem stopListening_result_still_delivered:
  "isListening listening
   \<and> recognition (stopListening listening) = Some Stopping
   \<and> recognition (cleanup listening) = Some Aborting
   \<and> deliver (Result ''I am Rajesh from Punjab'') (stopListening listening)
       = Some \<lparr>isListening = False, transcript = ''I am Rajesh from Punjab'',
               isProcessing = True, error = None, recognition = Some Stopping\<rparr>
   \<and> deliver (Result ''I am Rajesh from Punjab'') (cleanup listening) = None"
  by (simp add: listening_def stopListening_def recognition_stop_def cleanup_def
        recognition_abort_def deliver_def onresult_def)

text \<open>
  C9.  \<open>startListening\<close> invoked while the component listens and the session is active
  starts no second session: the session stays as it was, the component goes on listening,
  and the attempt ends in the error message, that of the rejected \<open>start()\<close> or of the
  refused microphone.  This holds from the \<open>await\<close> on, so whatever happened while the
  permission was pending.  \<open>stopListening\<close> invoked while the component does not listen
  leaves its four state variables as they are, and the session too unless one is still
  started.  The microphone button never calls \<open>startListening\<close> while the component
  listens.
\<close>

theorem capture_not_reentrant:
  "(isListening v \<and> recognition v = Some r \<and> r \<noteq> Inactive \<longrightarrow>
      recognition (startListening_resume perm v) = Some r
      \<and> recognition (startListening perm v) = Some r
      \<and> isListening (startListening perm v)
      \<and> error (startListening perm v)
          = Some (start_error_message
                    (case perm of Granted \<Rightarrow> ''InvalidStateError'' | Refused name \<Rightarrow> name)))
   \<and> (\<not> isListening v \<longrightarrow>
        isListening (stopListening v) = isListening v
        \<and> transcript (stopListening v) = transcript v
        \<and> isProcessing (stopListening v) = isProcessing v
        \<and> error (stopListening v) = error v
        \<and> (recognition v \<noteq> Some Started \<longrightarrow> stopListening v = v))
   \<and> (isListening v \<longrightarrow> onClick perm v = (if isProcessing v then v else stopListening v))"
proof (intro conjI impI)
  assume a: "isListening v \<and> recognition v = Some r \<and> r \<noteq> Inactive"
  then show "recognition (startListening_resume perm v) = Some r"
    "recognition (startListening perm v) = Some r"
    "isListening (startListening perm v)"
    "error (startListening perm v)
          = Some (start_error_message
                    (case perm of Granted \<Rightarrow> ''InvalidStateError'' | Refused name \<Rightarrow> name))"
    by (cases perm; simp add: startListening_def startListening_request_def
          startListening_resume_def recognition_start_def Let_def)+
next
  assume a: "\<not> isListening v"
  then show "isListening (stopListening v) = isListening v"
    "transcript (stopListening v) = transcript v"
    "isProcessing (stopListening v) = isProcessing v"
    "error (stopListening v) = error v"
    by (simp_all add: stopListening_def split: option.splits)
  assume "recognition v \<noteq> Some Started"
  with a show "stopListening v = v"
    by (cases "recognition v") (simp_all add: stopListening_def recognition_stop_def)
next
  assume "isListening v"
  then show "onClick perm v = (if isProcessing v then v else stopListening v)"
    by (simp add: onClick_def)
qed

theorem capture_not_reentrant_witness:
  "isListening listening \<and> recognition listening = Some Started
   \<and> startListening Granted listening
       = \<lparr>isListening = True, transcript = [], isProcessing = False,
          error = Some ''Could not start microphone. Ensure no other app is using it.'',
          recognition = Some Started\<rparr>
   \<and> onClick Granted listening = stopListening listening
   \<and> \<not> isListening idle \<and> stopListening idle = idle"
proof -
  have l: "isListening listening \<and> recognition listening = Some Started \<and> Started \<noteq> Inactive"
    by (simp add: listening_def)
  have i: "\<not> isListening idle" "recognition idle \<noteq> Some Started"
    by (simp_all add: idle_def)
  have m: "start_error_message ''InvalidStateError''
             = ''Could not start microphone. Ensure no other app is using it.''"
    by (simp add: start_error_message_def)
  have t: "transcript (startListening Granted listening) = []"
          "isProcessing (startListening Granted listening) = False"
    by (simp_all add: startListening_def startListening_request_def startListening_resume_def
          recognition_start_def listening_def)
  from capture_not_reentrant [of listening Started Granted] l
  have s: "recognition (startListening Granted listening) = Some Started"
    "isListening (startListening Granted listening)"
    "error (startListening Granted listening)
       = Some ''Could not start microphone. Ensure no other app is using it.''"
    by (simp_all add: m)
  from capture_not_reentrant [of listening Started Granted] l
  have "onClick Granted listening = stopListening listening"
    by (simp add: listening_def)
  moreover from capture_not_reentrant [of idle Inactive Granted] i
  have "stopListening idle = idle" by blast
  moreover have "startListening Granted listening
       = \<lparr>isListening = True, transcript = [], isProcessing = False,
          error = Some ''Could not start microphone. Ensure no other app is using it.'',
          recognition = Some Started\<rparr>"
    using s t by (cases "startListening Granted listening") simp
  ultimately show ?thesis using l i by simp
qed

end
